theory Spec2Isabelle
  imports Complex_Main "HOL-Library.Multiset"
begin

section \<open>Data model of the todo service (backend/main.py)\<close>

text \<open>
  Python strings are sequences of Unicode code points and \<open>len\<close> counts code points, so a
  text is a list of code points. \<open>of_ascii\<close> only serves to write ASCII texts readably.
\<close>

type_synonym pychar = nat
type_synonym pystr = "pychar list"

definition of_ascii :: "string \<Rightarrow> pystr" where
  "of_ascii s = map of_char s"

text \<open>
  \<open>str.strip()\<close> without argument removes leading and trailing characters for which
  \<open>str.isspace\<close> holds. The code points below are the ones CPython treats as whitespace:
  U+0009..U+000D, U+001C..U+0020, U+0085, U+00A0, U+1680, U+2000..U+200A, U+2028, U+2029,
  U+202F, U+205F and U+3000.
\<close>

definition isspace :: "pychar \<Rightarrow> bool" where
  "isspace c \<longleftrightarrow>
     (9 \<le> c \<and> c \<le> 13) \<or> (28 \<le> c \<and> c \<le> 32) \<or> c = 133 \<or> c = 160 \<or> c = 5760 \<or>
     (8192 \<le> c \<and> c \<le> 8202) \<or> c = 8232 \<or> c = 8233 \<or> c = 8239 \<or> c = 8287 \<or> c = 12288"

definition strip :: "pystr \<Rightarrow> pystr" where
  "strip s = rev (dropWhile isspace (rev (dropWhile isspace s)))"

text \<open>
  \<open>class TodoDB(Base)\<close>: one row of table \<open>todos\<close>. The columns \<open>id\<close>, \<open>text\<close> and
  \<open>completed\<close> carry the suffix \<open>_col\<close> (\<open>id\<close> and \<open>text\<close> are taken in Isabelle).
  \<open>completed\<close> is declared \<open>nullable=False\<close>, hence a plain \<open>bool\<close>. The response model
  \<open>Todo\<close> has the same three fields and is not distinguished from the row.
\<close>

record TodoDB =
  id_col :: int
  text_col :: pystr
  completed_col :: bool

text \<open>\<open>class TodoUpdate(BaseModel)\<close>: both fields optional, \<open>None\<close> when not supplied.\<close>

record TodoUpdate =
  text_opt :: "pystr option"
  completed_opt :: "bool option"

text \<open>
  Exceptions as values. \<open>HTTPException\<close> carries status code and detail, \<open>RuntimeError\<close>
  its message; \<open>Exception\<close> is any other exception, with its message.
\<close>

datatype error = HTTPException nat string | Exception string | RuntimeError string

section \<open>The datastore\<close>

text \<open>
  Modelled from the spec: the relational datastore behind the SQLAlchemy session (an external
  PostgreSQL server, no code of which is in the repository). Following sections 3 and 4.3 of
  the specification, table \<open>todos\<close> is the sequence of its rows in insertion order, and the
  id of a new row is assigned by storage: \<open>next_id\<close> is the next value of the sequence that
  backs the integer primary key. Updates rewrite the row with the given primary key in place,
  deletes remove it.

  A datastore call may raise. \<open>faults\<close> gives, for one request, the outcome of every call that
  the request may issue: \<open>flt c k\<close> is the outcome of the call number \<open>k\<close> (counted from 0)
  of kind \<open>c\<close>, \<open>None\<close> when it succeeds and the message of the exception when it raises.
  \<open>available\<close> is the datastore on which no call raises. A commit that raises persists
  nothing (the transaction is rolled back). A call that does not raise takes
  the row as the handler hands it over: limits of the server on the content of a text or on
  the size of the id sequence are not part of the model.
\<close>

record database =
  rows :: "TodoDB list"
  next_id :: int

datatype db_call = Query | Commit | Refresh

type_synonym faults = "db_call \<Rightarrow> nat \<Rightarrow> string option"

definition available :: faults where
  "available = (\<lambda>c k. None)"


definition empty_database :: database where
  "empty_database = \<lparr>rows = [], next_id = 1\<rparr>"


text \<open>\<open>db.query(TodoDB).filter(TodoDB.id == todo_id).first()\<close>\<close>

definition query_first :: "string option \<Rightarrow> database \<Rightarrow> int \<Rightarrow> string + TodoDB option" where
  "query_first raised db todo_id =
     (case raised of
        Some e \<Rightarrow> Inl e
      | None \<Rightarrow> Inr (find (\<lambda>r. id_col r = todo_id) (rows db)))"

text \<open>
  Modelled from the spec: what the datastore does on \<open>db.add(TodoDB(text=t, completed=c));
  db.commit()\<close>. The new row takes the next value of the id sequence and goes to the end of
  the table; the result is the new state and the id that storage assigned.
\<close>

definition commit_add ::
  "string option \<Rightarrow> database \<Rightarrow> pystr \<Rightarrow> bool \<Rightarrow> string + database \<times> int" where
  "commit_add raised db t c =
     (case raised of
        Some e \<Rightarrow> Inl e
      | None \<Rightarrow>
          Inr (\<lparr>rows = rows db @ [\<lparr>id_col = next_id db, text_col = t, completed_col = c\<rparr>],
                next_id = next_id db + 1\<rparr>,
               next_id db))"

text \<open>\<open>db.commit()\<close> after attributes of the loaded row were assigned.\<close>

definition commit_update :: "string option \<Rightarrow> database \<Rightarrow> TodoDB \<Rightarrow> string + database" where
  "commit_update raised db todo =
     (case raised of
        Some e \<Rightarrow> Inl e
      | None \<Rightarrow> Inr (db\<lparr>rows := map (\<lambda>r. if id_col r = id_col todo then todo else r) (rows db)\<rparr>))"

text \<open>\<open>db.delete(todo); db.commit()\<close>\<close>

definition commit_delete :: "string option \<Rightarrow> database \<Rightarrow> TodoDB \<Rightarrow> string + database" where
  "commit_delete raised db todo =
     (case raised of
        Some e \<Rightarrow> Inl e
      | None \<Rightarrow> Inr (db\<lparr>rows := filter (\<lambda>r. id_col r \<noteq> id_col todo) (rows db)\<rparr>))"

text \<open>\<open>db.refresh(obj)\<close>: reads the row with the object's primary key again; raises when the
  row is gone.\<close>

definition refresh :: "string option \<Rightarrow> database \<Rightarrow> int \<Rightarrow> string + TodoDB" where
  "refresh raised db pk =
     (case raised of
        Some e \<Rightarrow> Inl e
      | None \<Rightarrow>
          (case find (\<lambda>r. id_col r = pk) (rows db) of
             None \<Rightarrow> Inl ''Could not refresh instance''
           | Some r \<Rightarrow> Inr r))"

section \<open>Request handlers\<close>

text \<open>
  Each handler takes the datastore state and returns the state after the handler together
  with either the \<open>HTTPException\<close> it raises or the value it returns. \<open>db.rollback()\<close>
  discards the uncommitted work of the session, so the state after a handler that raised is the
  last committed one. Every handler issues each of its datastore calls once: the call number
  is 0 throughout.
\<close>


text \<open>\<open>POST /todos\<close>; the argument is \<open>todo.text\<close>.\<close>

definition create_todo :: "faults \<Rightarrow> database \<Rightarrow> pystr \<Rightarrow> database \<times> (error + TodoDB)" where
  "create_todo flt db text =
     (if text = [] \<or> strip text = [] then
        (db, Inl (HTTPException 400 ''Todo text cannot be empty''))
      else if length (strip text) > 500 then
        (db, Inl (HTTPException 400 ''Todo text cannot exceed 500 characters''))
      else
        (case commit_add (flt Commit 0) db (strip text) False of
           Inl e \<Rightarrow> (db, Inl (HTTPException 500 (''Failed to create todo: '' @ e)))
         | Inr (db', pk) \<Rightarrow>
             (case refresh (flt Refresh 0) db' pk of
                Inl e \<Rightarrow> (db', Inl (HTTPException 500 (''Failed to create todo: '' @ e)))
              | Inr db_todo \<Rightarrow> (db', Inr db_todo))))"

text \<open>\<open>GET /todos/{todo_id}\<close>\<close>

definition get_todo :: "faults \<Rightarrow> database \<Rightarrow> int \<Rightarrow> database \<times> (error + TodoDB)" where
  "get_todo flt db todo_id =
     (case query_first (flt Query 0) db todo_id of
        Inl e \<Rightarrow> (db, Inl (HTTPException 500 (''Failed to fetch todo: '' @ e)))
      | Inr None \<Rightarrow> (db, Inl (HTTPException 404 ''Todo not found''))
      | Inr (Some todo) \<Rightarrow> (db, Inr todo))"

text \<open>\<open>PUT /todos/{todo_id}\<close>\<close>

definition update_todo ::
  "faults \<Rightarrow> database \<Rightarrow> int \<Rightarrow> TodoUpdate \<Rightarrow> database \<times> (error + TodoDB)" where
  "update_todo flt db todo_id todo_update =
     (case query_first (flt Query 0) db todo_id of
        Inl e \<Rightarrow> (db, Inl (HTTPException 500 (''Failed to update todo: '' @ e)))
      | Inr None \<Rightarrow> (db, Inl (HTTPException 404 ''Todo not found''))
      | Inr (Some todo) \<Rightarrow>
          (case (case text_opt todo_update of
                   None \<Rightarrow> Inr todo
                 | Some t \<Rightarrow>
                     if strip t = [] then
                       Inl (HTTPException 400 ''Todo text cannot be empty'')
                     else if length (strip t) > 500 then
                       Inl (HTTPException 400 ''Todo text cannot exceed 500 characters'')
                     else Inr (todo\<lparr>text_col := strip t\<rparr>)) of
             Inl err \<Rightarrow> (db, Inl err)
           | Inr todo1 \<Rightarrow>
               (let todo2 = (case completed_opt todo_update of
                               None \<Rightarrow> todo1
                             | Some c \<Rightarrow> todo1\<lparr>completed_col := c\<rparr>)
                in case commit_update (flt Commit 0) db todo2 of
                     Inl e \<Rightarrow> (db, Inl (HTTPException 500 (''Failed to update todo: '' @ e)))
                   | Inr db' \<Rightarrow>
                       (case refresh (flt Refresh 0) db' (id_col todo2) of
                          Inl e \<Rightarrow>
                            (db', Inl (HTTPException 500 (''Failed to update todo: '' @ e)))
                        | Inr todo3 \<Rightarrow> (db', Inr todo3)))))"

text \<open>\<open>DELETE /todos/{todo_id}\<close>; the response is the confirmation message.\<close>

definition delete_todo :: "faults \<Rightarrow> database \<Rightarrow> int \<Rightarrow> database \<times> (error + string)" where
  "delete_todo flt db todo_id =
     (case query_first (flt Query 0) db todo_id of
        Inl e \<Rightarrow> (db, Inl (HTTPException 500 (''Failed to delete todo: '' @ e)))
      | Inr None \<Rightarrow> (db, Inl (HTTPException 404 ''Todo not found''))
      | Inr (Some todo) \<Rightarrow>
          (case commit_delete (flt Commit 0) db todo of
             Inl e \<Rightarrow> (db, Inl (HTTPException 500 (''Failed to delete todo: '' @ e)))
           | Inr db' \<Rightarrow> (db', Inr ''Todo deleted successfully'')))"

section \<open>Startup\<close>

text \<open>
  \<open>init_database(max_retries=10, delay=2)\<close>. \<open>connect k\<close> is the outcome of attempt number
  \<open>k\<close> (counted from 0) to create the engine and run \<open>SELECT 1\<close>: \<open>None\<close> when it succeeds,
  the exception's message when it raises. The result pairs the arguments of the calls of
  \<open>time.sleep\<close>, in order, with the raised exception or the engine (named by the attempt that
  produced it). Delays are rationals: every value that \<open>delay * 1.5\<close> takes from the default
  \<open>2\<close> up to the cap is a dyadic fraction that a Python float holds exactly.
\<close>

function init_database_loop ::
  "(nat \<Rightarrow> string option) \<Rightarrow> int \<Rightarrow> nat \<Rightarrow> rat \<Rightarrow> rat list \<times> (error + nat)" where
  "init_database_loop connect max_retries attempt delay =
     (if int attempt < max_retries then
        (case connect attempt of
           None \<Rightarrow> ([], Inr attempt)
         | Some e \<Rightarrow>
             if int attempt < max_retries - 1 then
               (let (slept, r) =
                      init_database_loop connect max_retries (attempt + 1) (min (delay * (3 / 2)) 30)
                in (delay # slept, r))
             else ([], Inl (Exception e)))
      else ([], Inl (Exception ''Failed to initialize database after all retries'')))"
  by pat_completeness auto
termination
  by (relation "measure (\<lambda>(connect, max_retries, attempt, delay). nat (max_retries - int attempt))")
     auto

definition init_database ::
  "int \<Rightarrow> rat \<Rightarrow> (nat \<Rightarrow> string option) \<Rightarrow> rat list \<times> (error + nat)" where
  "init_database max_retries delay connect = init_database_loop connect max_retries 0 delay"

text \<open>
  \<open>create_tables(max_retries=5)\<close>; \<open>create k\<close> is the outcome of the \<open>k\<close>-th call of
  \<open>Base.metadata.create_all\<close>. When the loop body never runs the function returns normally.
\<close>

function create_tables_loop ::
  "(nat \<Rightarrow> string option) \<Rightarrow> int \<Rightarrow> nat \<Rightarrow> rat list \<times> (error + unit)" where
  "create_tables_loop create max_retries attempt =
     (if int attempt < max_retries then
        (case create attempt of
           None \<Rightarrow> ([], Inr ())
         | Some e \<Rightarrow>
             if int attempt < max_retries - 1 then
               (let (slept, r) = create_tables_loop create max_retries (attempt + 1)
                in (2 # slept, r))
             else ([], Inl (Exception e)))
      else ([], Inr ()))"
  by pat_completeness auto
termination
  by (relation "measure (\<lambda>(create, max_retries, attempt). nat (max_retries - int attempt))") auto

definition create_tables :: "int \<Rightarrow> (nat \<Rightarrow> string option) \<Rightarrow> rat list \<times> (error + unit)" where
  "create_tables max_retries create = create_tables_loop create max_retries 0"

text \<open>
  Module initialisation: \<open>engine = init_database()\<close> inside \<open>try ... except: raise\<close>, then
  \<open>create_tables()\<close>, both with their default arguments. An exception of either ends the
  import of the module, and with it the process.
\<close>

definition startup ::
  "(nat \<Rightarrow> string option) \<Rightarrow> (nat \<Rightarrow> string option) \<Rightarrow> error + nat" where
  "startup connect create =
     (case snd (init_database 10 2 connect) of
        Inl e \<Rightarrow> Inl e
      | Inr engine \<Rightarrow>
          (case snd (create_tables 5 create) of
             Inl e \<Rightarrow> Inl e
           | Inr u \<Rightarrow> Inr engine))"

section \<open>Requests\<close>

text \<open>
  \<open>get_db()\<close>, the generator that every \<open>/todos\<close> handler receives its session from
  (\<open>Depends(get_db)\<close>), together with the code that drives it. \<open>probe k\<close> is the outcome of
  the \<open>k\<close>-th attempt to open a session and run \<open>SELECT 1\<close> on it; \<open>body\<close> is the handler,
  which runs while the generator is suspended at \<open>yield db\<close>. The result is the list of the
  arguments of \<open>time.sleep\<close>, the state of the datastore and the outcome of the request.

  The \<open>yield\<close> is inside the \<open>try\<close> of the retry loop. When the handler returns, the
  generator is resumed, reaches \<open>break\<close> and ends: the outcome is the handler's value. When
  the handler raises, its exception is raised in the generator at the \<open>yield\<close>, where
  \<open>except Exception\<close> catches it like a failed probe: on the first two attempts the generator
  sleeps and goes round the loop again, on the third it raises the \<open>HTTPException\<close> with
  status 503. \<open>thrown\<close> records that this has happened: a generator that yields once more
  after an exception was raised in it makes its driver raise \<open>RuntimeError\<close>, and the handler
  is not run again. The loop never runs out, since its third iteration always leaves it; the
  value given for that case is the error of a generator that ends without a \<open>yield\<close>.
\<close>

function get_db_loop ::
  "(nat \<Rightarrow> string option) \<Rightarrow> (database \<Rightarrow> database \<times> (error + 'a)) \<Rightarrow> database \<Rightarrow> nat \<Rightarrow> bool \<Rightarrow>
   rat list \<times> database \<times> (error + 'a)" where
  "get_db_loop probe body db attempt thrown =
     (if attempt < 3 then
        (case probe attempt of
           None \<Rightarrow>
             if thrown then
               ([], db, Inl (RuntimeError ''generator didn't stop after throw()''))
             else
               (case body db of
                  (db', Inr v) \<Rightarrow> ([], db', Inr v)
                | (db', Inl err) \<Rightarrow>
                    if attempt < 3 - 1 then
                      (let (slept, r) = get_db_loop probe body db' (attempt + 1) True
                       in (1 / 2 # slept, r))
                    else
                      ([], db',
                       Inl (HTTPException 503 ''Database connection failed after multiple retries'')))
         | Some e \<Rightarrow>
             if attempt < 3 - 1 then
               (let (slept, r) = get_db_loop probe body db (attempt + 1) thrown
                in (1 / 2 # slept, r))
             else
               ([], db,
                Inl (HTTPException 503 ''Database connection failed after multiple retries'')))
      else ([], db, Inl (RuntimeError ''generator didn't yield'')))"
  by pat_completeness auto
termination
  by (relation "measure (\<lambda>(probe, body, db, attempt, thrown). 3 - attempt)") auto

definition get_db ::
  "(nat \<Rightarrow> string option) \<Rightarrow> (database \<Rightarrow> database \<times> (error + 'a)) \<Rightarrow> database \<Rightarrow>
   rat list \<times> database \<times> (error + 'a)" where
  "get_db probe body db = get_db_loop probe body db 0 False"


definition request_create_todo ::
  "(nat \<Rightarrow> string option) \<Rightarrow> faults \<Rightarrow> database \<Rightarrow> pystr \<Rightarrow>
   rat list \<times> database \<times> (error + TodoDB)" where
  "request_create_todo probe flt db text = get_db probe (\<lambda>s. create_todo flt s text) db"

definition request_get_todo ::
  "(nat \<Rightarrow> string option) \<Rightarrow> faults \<Rightarrow> database \<Rightarrow> int \<Rightarrow>
   rat list \<times> database \<times> (error + TodoDB)" where
  "request_get_todo probe flt db todo_id = get_db probe (\<lambda>s. get_todo flt s todo_id) db"

definition request_update_todo ::
  "(nat \<Rightarrow> string option) \<Rightarrow> faults \<Rightarrow> database \<Rightarrow> int \<Rightarrow> TodoUpdate \<Rightarrow>
   rat list \<times> database \<times> (error + TodoDB)" where
  "request_update_todo probe flt db todo_id todo_update =
     get_db probe (\<lambda>s. update_todo flt s todo_id todo_update) db"

definition request_delete_todo ::
  "(nat \<Rightarrow> string option) \<Rightarrow> faults \<Rightarrow> database \<Rightarrow> int \<Rightarrow>
   rat list \<times> database \<times> (error + string)" where
  "request_delete_todo probe flt db todo_id = get_db probe (\<lambda>s. delete_todo flt s todo_id) db"

section \<open>Sequences of requests and the storage invariant\<close>

text \<open>
  The mutating requests, and a run of them against the datastore: each request is served by
  its handler under its own \<open>faults\<close>, and the log pairs every request with its outcome.
\<close>

datatype request = Create pystr | Update int TodoUpdate | Delete int

datatype response = Item TodoDB | Message string

fun handle :: "faults \<Rightarrow> database \<Rightarrow> request \<Rightarrow> database \<times> (error + response)" where
  "handle flt db (Create text) =
     (let (db', r) = create_todo flt db text
      in (db', case r of Inl e \<Rightarrow> Inl e | Inr t \<Rightarrow> Inr (Item t)))"
| "handle flt db (Update todo_id todo_update) =
     (let (db', r) = update_todo flt db todo_id todo_update
      in (db', case r of Inl e \<Rightarrow> Inl e | Inr t \<Rightarrow> Inr (Item t)))"
| "handle flt db (Delete todo_id) =
     (let (db', r) = delete_todo flt db todo_id
      in (db', case r of Inl e \<Rightarrow> Inl e | Inr m \<Rightarrow> Inr (Message m)))"

fun run ::
  "database \<Rightarrow> (faults \<times> request) list \<Rightarrow> database \<times> (request \<times> (error + response)) list"
where
  "run db [] = (db, [])"
| "run db ((flt, q) # qs) =
     (let (db1, r) = handle flt db q;
          (db2, entries) = run db1 qs
      in (db2, (q, r) # entries))"

text \<open>The id that a request addresses.\<close>

fun target :: "request \<Rightarrow> int option" where
  "target (Create text) = None"
| "target (Update todo_id todo_update) = Some todo_id"
| "target (Delete todo_id) = Some todo_id"




text \<open>
  The invariant of section 3 of the specification, on a state of the datastore: the ids of
  the stored rows are positive, pairwise different and below the next value of the sequence,
  and every stored text is non-empty and at most 500 characters long. That \<open>completed\<close> is
  never null is carried by the type of the column.
\<close>

definition storage_invariant :: "database \<Rightarrow> bool" where
  "storage_invariant db \<longleftrightarrow>
     0 < next_id db \<and> distinct (map id_col (rows db)) \<and>
     (\<forall>r\<in>set (rows db).
        0 < id_col r \<and> id_col r < next_id db \<and> text_col r \<noteq> [] \<and> length (text_col r) \<le> 500)"

text \<open>Outcomes of session probes used in the examples below: every attempt succeeds; the
  first attempt is refused and later ones succeed; every attempt is refused.\<close>

definition reachable :: "nat \<Rightarrow> string option" where
  "reachable k = None"


definition refused_always :: "nat \<Rightarrow> string option" where
  "refused_always k = Some ''connection refused''"




text \<open>The loops are unfolded one iteration at a time in the proofs below.\<close>

declare init_database_loop.simps [simp del]
declare create_tables_loop.simps [simp del]
declare get_db_loop.simps [simp del]

section \<open>Trimming\<close>

lemma strip_blank: "\<forall>c\<in>set s. isspace c \<Longrightarrow> strip s = []"
proof -
  assume "\<forall>c\<in>set s. isspace c"
  then have "dropWhile isspace s = []" by simp
  then show ?thesis unfolding strip_def by (simp only: rev.simps dropWhile.simps)
qed

lemma strip_keeps:
  assumes "s \<noteq> []" "\<not> isspace (hd s)" "\<not> isspace (last s)"
  shows "strip s = s"
proof -
  from assms have a: "dropWhile isspace s = s" by (cases s) auto
  from assms have "dropWhile isspace (rev s) = rev s"
    by (cases "rev s") (auto simp: last_rev hd_rev)
  with a show ?thesis by (simp add: strip_def)
qed

lemma strip_trailing_space:
  assumes "isspace c"
  shows "strip (s @ [c]) = strip s"
proof (cases "\<forall>x\<in>set s. isspace x")
  case True
  with assms have "\<forall>x\<in>set (s @ [c]). isspace x" by simp
  then have "strip (s @ [c]) = []" by (rule strip_blank)
  with True show ?thesis by (simp add: strip_blank)
next
  case False
  then have "dropWhile isspace (s @ [c]) = dropWhile isspace s @ [c]"
    by (auto simp: dropWhile_append)
  with assms show ?thesis by (simp add: strip_def)
qed

lemma strip_replicate_a: "0 < n \<Longrightarrow> strip (replicate n 97) = replicate n 97"
  by (rule strip_keeps) (auto simp: isspace_def)

lemma strip_Nil: "strip [] = []"
  by (simp add: strip_def)

section \<open>Lookups by id\<close>

lemma find_id_col: "find (\<lambda>r. id_col r = i) rs = Some t \<Longrightarrow> id_col t = i \<and> t \<in> set rs"
  by (induction rs) (auto split: if_splits)

lemma find_after_delete: "find (\<lambda>r. id_col r = i) (filter (\<lambda>r. id_col r \<noteq> i) rs) = None"
  by (simp add: find_None_iff)

lemma find_after_update:
  assumes "find (\<lambda>r. id_col r = i) rs = Some old" and "id_col new = i"
  shows "find (\<lambda>r. id_col r = i) (map (\<lambda>r. if id_col r = i then new else r) rs) = Some new"
  using assms by (induction rs) (auto split: if_splits)

lemma find_after_add:
  assumes "\<forall>r\<in>set rs. id_col r \<noteq> id_col new"
  shows "find (\<lambda>r. id_col r = id_col new) (rs @ [new]) = Some new"
  using assms by (induction rs) auto

lemma delete_todo_found:
  assumes "flt Query 0 = None" "find (\<lambda>r. id_col r = todo_id) (rows db) = Some todo"
  shows "delete_todo flt db todo_id =
           (case flt Commit 0 of
              Some e \<Rightarrow> (db, Inl (HTTPException 500 (''Failed to delete todo: '' @ e)))
            | None \<Rightarrow> (db\<lparr>rows := filter (\<lambda>r. id_col r \<noteq> todo_id) (rows db)\<rparr>,
                       Inr ''Todo deleted successfully''))"
proof -
  from find_id_col [OF assms(2)] have "id_col todo = todo_id" by simp
  then have "commit_delete (flt Commit 0) db todo =
      (case flt Commit 0 of Some e \<Rightarrow> Inl e
       | None \<Rightarrow> Inr (db\<lparr>rows := filter (\<lambda>r. id_col r \<noteq> todo_id) (rows db)\<rparr>))"
    by (simp add: commit_delete_def split: option.split)
  moreover have "query_first (flt Query 0) db todo_id = Inr (Some todo)"
    using assms by (simp add: query_first_def)
  ultimately show ?thesis
    by (simp add: delete_todo_def split: option.split)
qed

lemma delete_todo_success:
  assumes "delete_todo flt db todo_id = (db', Inr m)"
  shows "(\<exists>todo. find (\<lambda>r. id_col r = todo_id) (rows db) = Some todo) \<and>
           db' = db\<lparr>rows := filter (\<lambda>r. id_col r \<noteq> todo_id) (rows db)\<rparr> \<and>
           m = ''Todo deleted successfully''"
proof (cases "flt Query 0")
  case (Some e)
  with assms show ?thesis by (simp add: delete_todo_def query_first_def)
next
  case None
  show ?thesis
  proof (cases "find (\<lambda>r. id_col r = todo_id) (rows db)")
    case N: None
    with None assms show ?thesis by (simp add: delete_todo_def query_first_def)
  next
    case (Some todo)
    from delete_todo_found [of flt todo_id db todo] None Some assms
    have "(case flt Commit 0 of
              Some e \<Rightarrow> (db, Inl (HTTPException 500 (''Failed to delete todo: '' @ e)))
            | None \<Rightarrow> (db\<lparr>rows := filter (\<lambda>r. id_col r \<noteq> todo_id) (rows db)\<rparr>,
                       Inr ''Todo deleted successfully'')) = (db', Inr m)" by simp
    then have "db' = db\<lparr>rows := filter (\<lambda>r. id_col r \<noteq> todo_id) (rows db)\<rparr> \<and>
           m = ''Todo deleted successfully''"
      by (cases "flt Commit 0") auto
    with Some show ?thesis by simp
  qed
qed

section \<open>What the handlers raise\<close>

lemma create_todo_blank_raises:
  assumes "text = [] \<or> (\<forall>c\<in>set text. isspace c)"
  shows "create_todo flt db text = (db, Inl (HTTPException 400 ''Todo text cannot be empty''))"
  using assms by (auto simp: create_todo_def strip_blank)

lemma create_todo_too_long_raises:
  assumes "500 < length (strip text)"
  shows "create_todo flt db text =
           (db, Inl (HTTPException 400 ''Todo text cannot exceed 500 characters''))"
proof -
  from assms have "strip text \<noteq> []" by auto
  moreover from this have "text \<noteq> []" by (auto simp: strip_def)
  ultimately show ?thesis using assms by (simp add: create_todo_def)
qed

lemma update_todo_absent_raises:
  assumes "flt Query 0 = None" and "todo_id \<notin> id_col ` set (rows db)"
  shows "update_todo flt db todo_id todo_update = (db, Inl (HTTPException 404 ''Todo not found''))"
proof -
  from assms(2) have "find (\<lambda>r. id_col r = todo_id) (rows db) = None"
    by (auto simp: find_None_iff)
  with assms(1) show ?thesis by (simp add: update_todo_def query_first_def)
qed

section \<open>Updates\<close>

text \<open>
  C2. On an available datastore, an update of a stored item whose supplied text, if any, is
  valid succeeds and returns the item \<open>new\<close>, which is the stored item with \<open>text\<close>
  replaced by the trimmed supplied text when a text is supplied and \<open>completed\<close> replaced
  by the supplied value when one is supplied; the id stays. A field that is not supplied keeps
  its value: in particular, with only \<open>completed\<close> supplied the text is untouched. In the
  table, the row with the requested id becomes \<open>new\<close> and every other row, the order of
  the rows and the id sequence stay as they were.
\<close>

theorem update_todo_frame:
  assumes "find (\<lambda>r. id_col r = todo_id) (rows db) = Some old"
    and "case text_opt upd of None \<Rightarrow> True | Some t \<Rightarrow> strip t \<noteq> [] \<and> length (strip t) \<le> 500"
    and "new = old\<lparr>text_col := (case text_opt upd of None \<Rightarrow> text_col old | Some t \<Rightarrow> strip t),
                    completed_col := (case completed_opt upd of None \<Rightarrow> completed_col old | Some c \<Rightarrow> c)\<rparr>"
  shows "update_todo available db todo_id upd =
           (db\<lparr>rows := map (\<lambda>r. if id_col r = todo_id then new else r) (rows db)\<rparr>, Inr new) \<and>
         id_col new = todo_id \<and>
         (text_opt upd = None \<longrightarrow> text_col new = text_col old) \<and>
         (completed_opt upd = None \<longrightarrow> completed_col new = completed_col old)"
proof -
  from find_id_col [OF assms(1)] have i: "id_col old = todo_id" by simp
  with assms(3) have n: "id_col new = todo_id" by simp
  from find_after_update [OF assms(1) n]
  have f: "find (\<lambda>r. id_col r = todo_id) (map (\<lambda>r. if id_col r = todo_id then new else r) (rows db)) = Some new" .
  have q: "query_first (available Query 0) db todo_id = Inr (Some old)"
    using assms(1) by (simp add: query_first_def available_def)
  have c: "commit_update (available Commit 0) db new =
             Inr (db\<lparr>rows := map (\<lambda>r. if id_col r = todo_id then new else r) (rows db)\<rparr>)"
    using n by (simp add: commit_update_def available_def)
  have r: "refresh (available Refresh 0)
             (db\<lparr>rows := map (\<lambda>r. if id_col r = todo_id then new else r) (rows db)\<rparr>) todo_id = Inr new"
    using f by (simp add: refresh_def available_def)
  have u: "update_todo available db todo_id upd =
           (db\<lparr>rows := map (\<lambda>r. if id_col r = todo_id then new else r) (rows db)\<rparr>, Inr new)"
  proof (cases "text_opt upd")
    case None
    with assms(3) have "new = (case completed_opt upd of None \<Rightarrow> old | Some c \<Rightarrow> old\<lparr>completed_col := c\<rparr>)"
      by (simp split: option.split)
    with None q c r n show ?thesis by (simp add: update_todo_def Let_def)
  next
    case (Some t)
    with assms(3) have "new = (case completed_opt upd of None \<Rightarrow> old\<lparr>text_col := strip t\<rparr>
                               | Some c \<Rightarrow> old\<lparr>text_col := strip t, completed_col := c\<rparr>)"
      by (simp split: option.split)
    with Some assms(2) q c r n show ?thesis by (simp add: update_todo_def Let_def)
  qed
  from u n assms(3) show ?thesis by (simp split: option.splits)
qed

theorem update_todo_frame_witness:
  "find (\<lambda>r. id_col r = 1)
     [\<lparr>id_col = 1, text_col = [97], completed_col = False\<rparr>,
      \<lparr>id_col = 2, text_col = [98], completed_col = False\<rparr>] =
     Some \<lparr>id_col = 1, text_col = [97], completed_col = False\<rparr> \<and>
   update_todo available
     \<lparr>rows = [\<lparr>id_col = 1, text_col = [97], completed_col = False\<rparr>,
              \<lparr>id_col = 2, text_col = [98], completed_col = False\<rparr>], next_id = 3\<rparr>
     1 \<lparr>text_opt = None, completed_opt = Some True\<rparr> =
     (\<lparr>rows = [\<lparr>id_col = 1, text_col = [97], completed_col = True\<rparr>,
               \<lparr>id_col = 2, text_col = [98], completed_col = False\<rparr>], next_id = 3\<rparr>,
      Inr \<lparr>id_col = 1, text_col = [97], completed_col = True\<rparr>)"
  using update_todo_frame
    [of 1 "\<lparr>rows = [\<lparr>id_col = 1, text_col = [97], completed_col = False\<rparr>,
                     \<lparr>id_col = 2, text_col = [98], completed_col = False\<rparr>], next_id = 3\<rparr>"
        "\<lparr>id_col = 1, text_col = [97], completed_col = False\<rparr>"
        "\<lparr>text_opt = None, completed_opt = Some True\<rparr>"
        "\<lparr>id_col = 1, text_col = [97], completed_col = True\<rparr>"]
  by simp

section \<open>The storage invariant\<close>

lemma create_todo_state:
  "fst (create_todo flt db text) = db \<or>
   (strip text \<noteq> [] \<and> length (strip text) \<le> 500 \<and> flt Commit 0 = None \<and>
    fst (create_todo flt db text) =
      \<lparr>rows = rows db @ [\<lparr>id_col = next_id db, text_col = strip text, completed_col = False\<rparr>],
       next_id = next_id db + 1\<rparr>)"
proof (cases "text = [] \<or> strip text = [] \<or> 500 < length (strip text)")
  case True
  then show ?thesis by (auto simp: create_todo_def)
next
  case False
  show ?thesis
  proof (cases "flt Commit 0")
    case (Some e)
    with False show ?thesis by (simp add: create_todo_def commit_add_def)
  next
    case None
    with False show ?thesis
      by (simp add: create_todo_def commit_add_def split: sum.split)
  qed
qed

lemma create_todo_result:
  assumes "create_todo flt db text = (db', Inr item)"
  shows "id_col item = next_id db \<and> flt Commit 0 = None \<and> strip text \<noteq> [] \<and>
         length (strip text) \<le> 500 \<and>
         db' = \<lparr>rows = rows db @ [\<lparr>id_col = next_id db, text_col = strip text, completed_col = False\<rparr>],
                next_id = next_id db + 1\<rparr> \<and>
         refresh (flt Refresh 0) db' (next_id db) = Inr item"
proof (cases "text = [] \<or> strip text = [] \<or> 500 < length (strip text)")
  case True
  with assms show ?thesis by (auto simp: create_todo_def split: if_splits)
next
  case False
  show ?thesis
  proof (cases "flt Commit 0")
    case (Some e)
    with False assms show ?thesis by (simp add: create_todo_def commit_add_def)
  next
    case None
    define d where "d = \<lparr>rows = rows db @ [\<lparr>id_col = next_id db, text_col = strip text, completed_col = False\<rparr>],
                next_id = next_id db + 1\<rparr>"
    from None False have c: "create_todo flt db text =
       (case refresh (flt Refresh 0) d (next_id db) of
          Inl e \<Rightarrow> (d, Inl (HTTPException 500 (''Failed to create todo: '' @ e)))
        | Inr db_todo \<Rightarrow> (d, Inr db_todo))"
      by (simp add: create_todo_def commit_add_def d_def split: sum.split)
    with assms have r: "refresh (flt Refresh 0) d (next_id db) = Inr item \<and> db' = d"
      by (cases "refresh (flt Refresh 0) d (next_id db)") auto
    then have "\<exists>x. find (\<lambda>r. id_col r = next_id db) (rows d) = Some item"
      by (auto simp: refresh_def split: option.splits)
    then have "id_col item = next_id db" by (auto dest: find_id_col)
    with r None False show ?thesis by (simp add: d_def)
  qed
qed

lemma update_todo_state:
  "fst (update_todo flt db i upd) = db \<or>
   (\<exists>old new. find (\<lambda>r. id_col r = i) (rows db) = Some old \<and> id_col new = i \<and>
      (text_col new = text_col old \<or> (text_col new \<noteq> [] \<and> length (text_col new) \<le> 500)) \<and>
      fst (update_todo flt db i upd) =
        db\<lparr>rows := map (\<lambda>r. if id_col r = i then new else r) (rows db)\<rparr>)"
proof (cases "flt Query 0")
  case (Some e)
  then show ?thesis by (simp add: update_todo_def query_first_def)
next
  case None
  show ?thesis
  proof (cases "find (\<lambda>r. id_col r = i) (rows db)")
    case N: None
    with None show ?thesis by (simp add: update_todo_def query_first_def)
  next
    case (Some old)
    from find_id_col [OF Some] have i: "id_col old = i" by simp
    have q: "query_first (flt Query 0) db i = Inr (Some old)"
      using None Some by (simp add: query_first_def)
    define todo1 where "todo1 = (case text_opt upd of None \<Rightarrow> old | Some t \<Rightarrow> old\<lparr>text_col := strip t\<rparr>)"
    define new where "new = (case completed_opt upd of None \<Rightarrow> todo1 | Some c \<Rightarrow> todo1\<lparr>completed_col := c\<rparr>)"
    have n: "id_col new = i"
      using i by (simp add: new_def todo1_def split: option.split)
    show ?thesis
    proof (cases "(case text_opt upd of None \<Rightarrow> True
                   | Some t \<Rightarrow> strip t \<noteq> [] \<and> length (strip t) \<le> 500) \<and> flt Commit 0 = None")
      case False
      then have "fst (update_todo flt db i upd) = db"
        using q
        by (cases "flt Commit 0")
           (auto simp: update_todo_def commit_update_def Let_def split: option.splits)
      then show ?thesis by simp
    next
      case True
      then have c: "commit_update (flt Commit 0) db new =
          Inr (db\<lparr>rows := map (\<lambda>r. if id_col r = i then new else r) (rows db)\<rparr>)"
        using n by (simp add: commit_update_def)
      have "fst (update_todo flt db i upd) =
              db\<lparr>rows := map (\<lambda>r. if id_col r = i then new else r) (rows db)\<rparr>"
        using True q c
        by (auto simp: update_todo_def Let_def new_def todo1_def split: option.splits sum.splits)
      moreover have "text_col new = text_col old \<or> (text_col new \<noteq> [] \<and> length (text_col new) \<le> 500)"
        using True by (auto simp: new_def todo1_def split: option.splits)
      ultimately show ?thesis using Some n by blast
    qed
  qed
qed

lemma delete_todo_state:
  "fst (delete_todo flt db i) = db \<or>
   fst (delete_todo flt db i) = db\<lparr>rows := filter (\<lambda>r. id_col r \<noteq> i) (rows db)\<rparr>"
proof (cases "flt Query 0")
  case (Some e)
  then show ?thesis by (simp add: delete_todo_def query_first_def)
next
  case None
  show ?thesis
  proof (cases "find (\<lambda>r. id_col r = i) (rows db)")
    case N: None
    with None show ?thesis by (simp add: delete_todo_def query_first_def)
  next
    case (Some todo)
    from delete_todo_found [of flt i db todo] None Some show ?thesis
      by (cases "flt Commit 0") simp_all
  qed
qed

lemma invariant_add:
  assumes "storage_invariant db" and "t \<noteq> []" and "length t \<le> 500"
  shows "storage_invariant
           \<lparr>rows = rows db @ [\<lparr>id_col = next_id db, text_col = t, completed_col = c\<rparr>],
            next_id = next_id db + 1\<rparr>"
  using assms by (auto simp: storage_invariant_def)

lemma map_id_col_update:
  "id_col new = i \<Longrightarrow>
   map id_col (map (\<lambda>r. if id_col r = i then new else r) rs) = map id_col rs"
  by (induction rs) auto

lemma invariant_update:
  assumes "storage_invariant db" and "find (\<lambda>r. id_col r = i) (rows db) = Some old"
    and "id_col new = i"
    and "text_col new = text_col old \<or> (text_col new \<noteq> [] \<and> length (text_col new) \<le> 500)"
  shows "storage_invariant (db\<lparr>rows := map (\<lambda>r. if id_col r = i then new else r) (rows db)\<rparr>)"
proof -
  from find_id_col [OF assms(2)] have o: "id_col old = i" "old \<in> set (rows db)" by simp_all
  have "map id_col (map (\<lambda>r. if id_col r = i then new else r) (rows db)) = map id_col (rows db)"
    using assms(3) by (rule map_id_col_update)
  with assms(1) have d: "distinct (map id_col (map (\<lambda>r. if id_col r = i then new else r) (rows db)))"
    by (simp only: storage_invariant_def)
  from assms(1) o(2) have v: "0 < id_col old \<and> id_col old < next_id db \<and> text_col old \<noteq> [] \<and>
      length (text_col old) \<le> 500"
    by (auto simp: storage_invariant_def)
  with assms(3,4) o have "0 < id_col new \<and> id_col new < next_id db \<and> text_col new \<noteq> [] \<and>
      length (text_col new) \<le> 500"
    by auto
  with assms(1) d show ?thesis
    by (auto simp: storage_invariant_def)
qed

lemma invariant_delete:
  assumes "storage_invariant db"
  shows "storage_invariant (db\<lparr>rows := filter (\<lambda>r. id_col r \<noteq> i) (rows db)\<rparr>)"
  using assms by (auto simp: storage_invariant_def distinct_map_filter)

lemma create_todo_invariant:
  "storage_invariant db \<Longrightarrow> storage_invariant (fst (create_todo flt db text))"
  using create_todo_state [of flt db "text"] by (auto simp: invariant_add)

lemma update_todo_invariant:
  "storage_invariant db \<Longrightarrow> storage_invariant (fst (update_todo flt db i upd))"
  using update_todo_state [of flt db i upd] by (auto simp: invariant_update)

lemma delete_todo_invariant:
  "storage_invariant db \<Longrightarrow> storage_invariant (fst (delete_todo flt db i))"
  using delete_todo_state [of flt db i] by (auto simp: invariant_delete)

lemma create_todo_next_id: "next_id db \<le> next_id (fst (create_todo flt db text))"
  using create_todo_state [of flt db "text"] by auto

lemma update_todo_next_id: "next_id (fst (update_todo flt db i upd)) = next_id db"
  using update_todo_state [of flt db i upd] by auto

lemma delete_todo_next_id: "next_id (fst (delete_todo flt db i)) = next_id db"
  using delete_todo_state [of flt db i] by auto

lemma handle_invariant: "storage_invariant db \<Longrightarrow> storage_invariant (fst (handle flt db q))"
  by (cases q)
     (simp_all add: case_prod_beta create_todo_invariant update_todo_invariant
        delete_todo_invariant)

lemma handle_next_id: "next_id db \<le> next_id (fst (handle flt db q))"
  by (cases q)
     (simp_all add: case_prod_beta create_todo_next_id update_todo_next_id delete_todo_next_id)

lemma run_Cons:
  "run db ((flt, q) # qs) =
     (fst (run (fst (handle flt db q)) qs),
      (q, snd (handle flt db q)) # snd (run (fst (handle flt db q)) qs))"
  by (simp add: case_prod_beta)

lemma run_invariant: "storage_invariant db \<Longrightarrow> storage_invariant (fst (run db reqs))"
proof (induction reqs arbitrary: db)
  case Nil
  then show ?case by simp
next
  case (Cons x reqs)
  obtain flt q where x: "x = (flt, q)" by (cases x)
  from Cons.prems have "storage_invariant (fst (handle flt db q))" by (rule handle_invariant)
  then have "storage_invariant (fst (run (fst (handle flt db q)) reqs))" by (rule Cons.IH)
  then show ?case by (simp only: x run_Cons fst_conv)
qed

lemma run_next_id: "next_id db \<le> next_id (fst (run db reqs))"
proof (induction reqs arbitrary: db)
  case Nil
  then show ?case by simp
next
  case (Cons x reqs)
  obtain flt q where x: "x = (flt, q)" by (cases x)
  have "next_id db \<le> next_id (fst (handle flt db q))" by (rule handle_next_id)
  also have "\<dots> \<le> next_id (fst (run (fst (handle flt db q)) reqs))" by (rule Cons.IH)
  finally show ?case by (simp only: x run_Cons fst_conv)
qed

text \<open>
  C3. Whatever the datastore does during the request, create, update and delete each take a
  state that satisfies the storage invariant to one that satisfies it, and so does every run
  of requests: the stored texts stay non-empty and at most 500 characters long, and the ids
  stay positive, pairwise different and below the next value of the sequence. Ids are never
  used again: for every item stored at some moment, whatever requests are served afterwards
  (a delete of that item among them), no later create returns an item with its id. The
  \<open>completed\<close> column holds a boolean by its type.
\<close>

theorem storage_invariant_preserved:
  assumes "storage_invariant db"
  shows "storage_invariant (fst (create_todo flt db text)) \<and>
         storage_invariant (fst (update_todo flt db todo_id todo_update)) \<and>
         storage_invariant (fst (delete_todo flt db todo_id)) \<and>
         storage_invariant (fst (run db reqs)) \<and>
         (\<forall>old\<in>set (rows db). \<forall>flt' text' db' item.
            create_todo flt' (fst (run db reqs)) text' = (db', Inr item) \<longrightarrow>
            id_col item \<noteq> id_col old)"
proof -
  have "id_col item \<noteq> id_col old"
    if "old \<in> set (rows db)" and "create_todo flt' (fst (run db reqs)) text' = (db', Inr item)"
    for old flt' text' db' item
  proof -
    from that(2) have "id_col item = next_id (fst (run db reqs))"
      by (simp add: create_todo_result)
    moreover from assms that(1) have "id_col old < next_id db"
      by (simp add: storage_invariant_def)
    moreover have "next_id db \<le> next_id (fst (run db reqs))" by (rule run_next_id)
    ultimately show ?thesis by simp
  qed
  with assms show ?thesis
    by (simp add: create_todo_invariant update_todo_invariant delete_todo_invariant run_invariant)
qed

theorem storage_invariant_preserved_witness:
  "storage_invariant \<lparr>rows = [\<lparr>id_col = 1, text_col = [97], completed_col = False\<rparr>], next_id = 2\<rparr> \<and>
   storage_invariant (fst (create_todo available
     \<lparr>rows = [\<lparr>id_col = 1, text_col = [97], completed_col = False\<rparr>], next_id = 2\<rparr> [98])) \<and>
   storage_invariant (fst (update_todo available
     \<lparr>rows = [\<lparr>id_col = 1, text_col = [97], completed_col = False\<rparr>], next_id = 2\<rparr> 1
     \<lparr>text_opt = Some [99], completed_opt = Some True\<rparr>)) \<and>
   storage_invariant (fst (delete_todo available
     \<lparr>rows = [\<lparr>id_col = 1, text_col = [97], completed_col = False\<rparr>], next_id = 2\<rparr> 1)) \<and>
   fst (run \<lparr>rows = [\<lparr>id_col = 1, text_col = [97], completed_col = False\<rparr>], next_id = 2\<rparr>
          [(available, Delete 1)]) = \<lparr>rows = [], next_id = 2\<rparr> \<and>
   create_todo available \<lparr>rows = [], next_id = 2\<rparr> [98] =
     (\<lparr>rows = [\<lparr>id_col = 2, text_col = [98], completed_col = False\<rparr>], next_id = 3\<rparr>,
      Inr \<lparr>id_col = 2, text_col = [98], completed_col = False\<rparr>) \<and>
   id_col \<lparr>id_col = 2, text_col = [98], completed_col = False\<rparr> \<noteq>
   id_col \<lparr>id_col = 1, text_col = [97], completed_col = False\<rparr>"
proof -
  let ?r = "\<lparr>id_col = 1, text_col = [97], completed_col = False\<rparr>"
  let ?db = "\<lparr>rows = [?r], next_id = 2\<rparr>"
  have i: "storage_invariant ?db" by (simp add: storage_invariant_def)
  have r: "fst (run ?db [(available, Delete 1)]) = \<lparr>rows = [], next_id = 2\<rparr>"
    by (simp add: delete_todo_def query_first_def commit_delete_def available_def)
  have s: "strip [98] = [98]" by (simp add: strip_def isspace_def)
  have c: "create_todo available \<lparr>rows = [], next_id = 2\<rparr> [98] =
     (\<lparr>rows = [\<lparr>id_col = 2, text_col = [98], completed_col = False\<rparr>], next_id = 3\<rparr>,
      Inr \<lparr>id_col = 2, text_col = [98], completed_col = False\<rparr>)"
    by (simp add: create_todo_def commit_add_def refresh_def available_def s)
  note t = storage_invariant_preserved [OF i, where flt = available and ?text = "[98]"
      and todo_id = 1 and todo_update = "\<lparr>text_opt = Some [99], completed_opt = Some True\<rparr>"
      and reqs = "[(available, Delete 1)]"]
  from t have "id_col \<lparr>id_col = 2, text_col = [98], completed_col = False\<rparr> \<noteq> id_col ?r"
    using c unfolding r by simp
  with t i r c show ?thesis by simp
qed

section \<open>Connection retries at startup\<close>

lemma backoff_step:
  fixes x p :: rat
  assumes "1 \<le> p"
  shows "min (min x 30 * p) 30 = min (x * p) 30"
proof (cases "x \<le> 30")
  case True
  then show ?thesis by (simp add: min_def)
next
  case False
  then have m: "min x 30 = 30" by (simp add: min_def)
  from assms have a: "30 \<le> 30 * p" by simp
  from False assms have "30 * p \<le> x * p" by (simp add: mult_right_mono)
  with a have b: "30 \<le> x * p" by (rule order_trans)
  from a have "min (30 * p) 30 = 30" by (rule min_absorb2)
  moreover from b have "min (x * p) 30 = 30" by (rule min_absorb2)
  ultimately show ?thesis by (simp only: m)
qed

lemma init_database_loop_retry:
  assumes "int a < n" and "c a = Some e" and "int a < n - 1"
  shows "init_database_loop c n a d =
           (d # fst (init_database_loop c n (a + 1) (min (d * (3 / 2)) 30)),
            snd (init_database_loop c n (a + 1) (min (d * (3 / 2)) 30)))"
  using assms by (subst init_database_loop.simps) (simp add: case_prod_beta)

lemma init_database_loop_stop:
  "\<not> (int a < n \<and> (\<exists>e. c a = Some e) \<and> int a < n - 1) \<Longrightarrow>
   fst (init_database_loop c n a d) = []"
  by (subst init_database_loop.simps) (auto split: option.split)

lemma init_database_loop_delays:
  "d \<le> 30 \<Longrightarrow> k < length (fst (init_database_loop c n a d)) \<Longrightarrow>
   fst (init_database_loop c n a d) ! k = min (d * (3 / 2) ^ k) 30"
proof (induction c n a d arbitrary: k rule: init_database_loop.induct)
  case (1 connect max_retries attempt delay)
  show ?case
  proof (cases "int attempt < max_retries \<and> (\<exists>e. connect attempt = Some e) \<and>
                int attempt < max_retries - 1")
    case False
    from init_database_loop_stop [of attempt max_retries connect delay] False "1.prems"(2)
    show ?thesis by simp
  next
    case True
    then obtain e where e: "connect attempt = Some e" by blast
    note u = init_database_loop_retry [of attempt max_retries connect e delay]
    from True e have eq: "fst (init_database_loop connect max_retries attempt delay) =
        delay # fst (init_database_loop connect max_retries (attempt + 1) (min (delay * (3 / 2)) 30))"
      by (simp add: u)
    show ?thesis
    proof (cases k)
      case 0
      with eq "1.prems"(1) show ?thesis by (simp add: min_def)
    next
      case (Suc j)
      with eq "1.prems"(2)
      have "j < length (fst (init_database_loop connect max_retries (attempt + 1)
                               (min (delay * (3 / 2)) 30)))" by simp
      with "1.IH" [of e j] True e
      have "fst (init_database_loop connect max_retries (attempt + 1) (min (delay * (3 / 2)) 30)) ! j =
              min (min (delay * (3 / 2)) 30 * (3 / 2) ^ j) 30"
        by simp
      also have "\<dots> = min (delay * (3 / 2) * (3 / 2) ^ j) 30"
        by (rule backoff_step) simp
      finally show ?thesis using eq Suc by (simp add: mult.assoc)
    qed
  qed
qed

lemma init_database_loop_exhausted:
  "\<not> int a < n \<Longrightarrow>
   init_database_loop c n a d =
     ([], Inl (Exception ''Failed to initialize database after all retries''))"
  by (subst init_database_loop.simps) simp

lemma init_database_loop_connected:
  "int a < n \<Longrightarrow> c a = None \<Longrightarrow> init_database_loop c n a d = ([], Inr a)"
  by (subst init_database_loop.simps) simp

lemma init_database_loop_last:
  "int a < n \<Longrightarrow> c a = Some e \<Longrightarrow> \<not> int a < n - 1 \<Longrightarrow>
   init_database_loop c n a d = ([], Inl (Exception e))"
  by (subst init_database_loop.simps) simp

lemma init_database_loop_success:
  "snd (init_database_loop c n a d) = Inr k \<Longrightarrow>
   a \<le> k \<and> int k < n \<and> c k = None \<and> (\<forall>j. a \<le> j \<and> j < k \<longrightarrow> c j \<noteq> None) \<and>
   length (fst (init_database_loop c n a d)) = k - a"
proof (induction c n a d rule: init_database_loop.induct)
  case (1 connect max_retries attempt delay)
  show ?case
  proof (cases "int attempt < max_retries")
    case False
    with "1.prems" show ?thesis by (simp add: init_database_loop_exhausted)
  next
    case lt: True
    show ?thesis
    proof (cases "connect attempt")
      case None
      with lt "1.prems" show ?thesis by (auto simp: init_database_loop_connected)
    next
      case (Some e)
      show ?thesis
      proof (cases "int attempt < max_retries - 1")
        case False
        with lt Some "1.prems" show ?thesis by (simp add: init_database_loop_last)
      next
        case True
        note u = init_database_loop_retry [of attempt max_retries connect e delay, OF lt Some True]
        from "1.prems" have "snd (init_database_loop connect max_retries (attempt + 1)
                                    (min (delay * (3 / 2)) 30)) = Inr k"
          by (simp add: u)
        from "1.IH" [OF lt Some True this]
        have ih: "attempt + 1 \<le> k" "int k < max_retries" "connect k = None"
          "\<forall>j. attempt + 1 \<le> j \<and> j < k \<longrightarrow> connect j \<noteq> None"
          "length (fst (init_database_loop connect max_retries (attempt + 1)
                          (min (delay * (3 / 2)) 30))) = k - (attempt + 1)"
          by simp_all
        have "\<forall>j. attempt \<le> j \<and> j < k \<longrightarrow> connect j \<noteq> None"
        proof (intro allI impI)
          fix j assume j: "attempt \<le> j \<and> j < k"
          show "connect j \<noteq> None"
          proof (cases "j = attempt")
            case True
            with Some show ?thesis by simp
          next
            case False
            with j have "attempt + 1 \<le> j \<and> j < k" by simp
            with ih(4) show ?thesis by blast
          qed
        qed
        moreover have "length (fst (init_database_loop connect max_retries attempt delay)) = k - attempt"
          using ih(1,5) by (simp add: u)
        ultimately show ?thesis using ih(1,2,3) by simp
      qed
    qed
  qed
qed

lemma init_database_loop_failure:
  "snd (init_database_loop c n a d) = Inl x \<Longrightarrow> int a < n \<Longrightarrow>
   (\<forall>j. a \<le> j \<and> int j < n \<longrightarrow> c j \<noteq> None) \<and>
   int (length (fst (init_database_loop c n a d))) = n - 1 - int a \<and>
   (\<exists>m. c (nat (n - 1)) = Some m \<and> x = Exception m)"
proof (induction c n a d rule: init_database_loop.induct)
  case (1 connect max_retries attempt delay)
  note lt = "1.prems"(2)
  show ?case
  proof (cases "connect attempt")
    case None
    with lt "1.prems"(1) show ?thesis by (simp add: init_database_loop_connected)
  next
    case (Some e)
    show ?thesis
    proof (cases "int attempt < max_retries - 1")
      case False
      with lt have a: "nat (max_retries - 1) = attempt" by simp
      from False lt have "\<forall>j. attempt \<le> j \<and> int j < max_retries \<longrightarrow> j = attempt" by auto
      with Some have "\<forall>j. attempt \<le> j \<and> int j < max_retries \<longrightarrow> connect j \<noteq> None" by auto
      moreover from lt Some False "1.prems"(1) have "x = Exception e"
        by (simp add: init_database_loop_last)
      moreover from lt Some False
      have "int (length (fst (init_database_loop connect max_retries attempt delay))) =
              max_retries - 1 - int attempt"
        by (simp add: init_database_loop_last)
      ultimately show ?thesis using Some a by simp
    next
      case True
      note u = init_database_loop_retry [of attempt max_retries connect e delay, OF lt Some True]
      from "1.prems"(1) have s: "snd (init_database_loop connect max_retries (attempt + 1)
                                  (min (delay * (3 / 2)) 30)) = Inl x"
        by (simp add: u)
      from True have lt1: "int (attempt + 1) < max_retries" by simp
      from "1.IH" [OF lt Some True s lt1]
      have ih: "\<forall>j. attempt + 1 \<le> j \<and> int j < max_retries \<longrightarrow> connect j \<noteq> None"
        "int (length (fst (init_database_loop connect max_retries (attempt + 1)
                        (min (delay * (3 / 2)) 30)))) = max_retries - 1 - int (attempt + 1)"
        "\<exists>m. connect (nat (max_retries - 1)) = Some m \<and> x = Exception m"
        by simp_all
      have "\<forall>j. attempt \<le> j \<and> int j < max_retries \<longrightarrow> connect j \<noteq> None"
      proof (intro allI impI)
        fix j assume j: "attempt \<le> j \<and> int j < max_retries"
        show "connect j \<noteq> None"
        proof (cases "j = attempt")
          case True
          with Some show ?thesis by simp
        next
          case False
          with j have "attempt + 1 \<le> j \<and> int j < max_retries" by simp
          with ih(1) show ?thesis by blast
        qed
      qed
      moreover have "int (length (fst (init_database_loop connect max_retries attempt delay))) =
              max_retries - 1 - int attempt"
        using ih(2) by (simp add: u)
      ultimately show ?thesis using ih(3) by simp
    qed
  qed
qed

text \<open>
  C9. \<open>init_database\<close> with the default delay 2 and a positive bound \<open>max_retries\<close>
  (10 by default) sleeps fewer than \<open>max_retries\<close> times, once after every failed attempt
  but the last, so it makes at most \<open>max_retries\<close> attempts. The \<open>k\<close>-th sleep (from 0)
  lasts \<open>min (2 * 1.5 ^ k) 30\<close>: the delay starts at 2, is multiplied by 1.5 after every
  failed attempt and is capped at 30. It returns an engine only from an attempt that succeeded
  after all earlier ones failed. When it raises, all \<open>max_retries\<close> attempts have failed and
  the exception is that of the last attempt. When the ten attempts of the default call all
  fail, module initialisation raises as well: the process does not go on.
\<close>

theorem init_database_backoff:
  assumes "0 < max_retries" and "init_database max_retries 2 connect = (slept, r)"
  shows "int (length slept) < max_retries \<and>
         (\<forall>k<length slept. slept ! k = min (2 * (3 / 2) ^ k) 30) \<and>
         (\<forall>k. r = Inr k \<longrightarrow>
            int k < max_retries \<and> connect k = None \<and> (\<forall>j<k. connect j \<noteq> None) \<and>
            length slept = k) \<and>
         (\<forall>x. r = Inl x \<longrightarrow>
            (\<forall>j. int j < max_retries \<longrightarrow> connect j \<noteq> None) \<and>
            int (length slept) = max_retries - 1 \<and>
            (\<exists>m. connect (nat (max_retries - 1)) = Some m \<and> x = Exception m)) \<and>
         ((\<forall>j<10. connect j \<noteq> None) \<longrightarrow> (\<exists>x. startup connect create = Inl x))"
proof -
  from assms(2) have f: "fst (init_database_loop connect max_retries 0 2) = slept"
    and s: "snd (init_database_loop connect max_retries 0 2) = r"
    by (simp_all add: init_database_def)
  have d: "\<forall>k<length slept. slept ! k = min (2 * (3 / 2) ^ k) 30"
    using init_database_loop_delays [of 2 _ connect max_retries 0] unfolding f by simp
  have ok: "int k < max_retries \<and> connect k = None \<and> (\<forall>j<k. connect j \<noteq> None) \<and>
            length slept = k" if "r = Inr k" for k
    using init_database_loop_success [of connect max_retries 0 2 k] that
    unfolding f s by simp
  have ko: "(\<forall>j. int j < max_retries \<longrightarrow> connect j \<noteq> None) \<and>
            int (length slept) = max_retries - 1 \<and>
            (\<exists>m. connect (nat (max_retries - 1)) = Some m \<and> x = Exception m)" if "r = Inl x" for x
    using init_database_loop_failure [of connect max_retries 0 2 x] that assms(1)
    unfolding f s by simp
  have len: "int (length slept) < max_retries"
  proof (cases r)
    case (Inl x)
    with ko [of x] show ?thesis by simp
  next
    case (Inr k)
    with ok [of k] show ?thesis by simp
  qed
  have st: "\<exists>x. startup connect create = Inl x" if a: "\<forall>j<10. connect j \<noteq> None"
  proof (cases "snd (init_database_loop connect 10 0 2)")
    case (Inl x)
    then show ?thesis by (simp add: startup_def init_database_def)
  next
    case (Inr k)
    from init_database_loop_success [OF this] have "k < 10 \<and> connect k = None" by simp
    with a have False by auto
    then show ?thesis ..
  qed
  from len d ok ko st show ?thesis by blast
qed

theorem init_database_backoff_witness:
  "(0 :: int) < 10 \<and>
   init_database 10 2 refused_always =
     ([2, 3, 9 / 2, 27 / 4, 81 / 8, 243 / 16, 729 / 32, 30, 30],
      Inl (Exception ''connection refused'')) \<and>
   int (length [2, 3, 9 / 2, 27 / 4, 81 / 8, 243 / 16, 729 / 32, 30, 30 :: rat]) < 10 \<and>
   [2, 3, 9 / 2, 27 / 4, 81 / 8, 243 / 16, 729 / 32, 30, 30] ! 6 = min (2 * (3 / 2) ^ 6) (30 :: rat) \<and>
   [2, 3, 9 / 2, 27 / 4, 81 / 8, 243 / 16, 729 / 32, 30, 30] ! 7 = min (2 * (3 / 2) ^ 7) (30 :: rat) \<and>
   refused_always 9 = Some ''connection refused'' \<and>
   startup refused_always refused_always = Inl (Exception ''connection refused'')"
proof -
  have e: "init_database 10 2 refused_always =
     ([2, 3, 9 / 2, 27 / 4, 81 / 8, 243 / 16, 729 / 32, 30, 30],
      Inl (Exception ''connection refused''))"
    by (simp add: init_database_def init_database_loop.simps refused_always_def)
  have p: "(0 :: int) < 10" by simp
  let ?slept = "[2, 3, 9 / 2, 27 / 4, 81 / 8, 243 / 16, 729 / 32, 30, 30 :: rat]"
  note t = init_database_backoff [OF p e, of refused_always]
  from t have l: "int (length ?slept) < 10" by (rule conjunct1)
  from t have d: "\<forall>k<length ?slept. ?slept ! k = min (2 * (3 / 2) ^ k) 30"
    by (rule conjunct2 [THEN conjunct1])
  have "6 < length ?slept" by simp
  with d have d6: "?slept ! 6 = min (2 * (3 / 2) ^ 6) 30" by blast
  have "7 < length ?slept" by simp
  with d have d7: "?slept ! 7 = min (2 * (3 / 2) ^ 7) 30" by blast
  have r: "refused_always 9 = Some ''connection refused''" by (simp add: refused_always_def)
  have s: "startup refused_always refused_always = Inl (Exception ''connection refused'')"
    by (simp add: startup_def e)
  from p e l d6 d7 r s show ?thesis by (intro conjI)
qed

section \<open>The session generator\<close>

lemma get_db_returns:
  assumes "body db = (db', Inr v)"
  shows "get_db probe body db =
     (if probe 0 = None then ([], db', Inr v)
      else if probe 1 = None then ([1 / 2], db', Inr v)
      else if probe 2 = None then ([1 / 2, 1 / 2], db', Inr v)
      else ([1 / 2, 1 / 2], db,
            Inl (HTTPException 503 ''Database connection failed after multiple retries'')))"
  using assms by (auto simp add: get_db_def get_db_loop.simps numeral_2_eq_2 split: option.split)

lemma get_db_raises:
  assumes "body db = (db', Inl err)"
  shows "get_db probe body db =
     (if probe 0 = None then
        (if probe 1 = None then
           ([1 / 2], db', Inl (RuntimeError ''generator didn't stop after throw()''))
         else if probe 2 = None then
           ([1 / 2, 1 / 2], db', Inl (RuntimeError ''generator didn't stop after throw()''))
         else ([1 / 2, 1 / 2], db',
               Inl (HTTPException 503 ''Database connection failed after multiple retries'')))
      else if probe 1 = None then
        (if probe 2 = None then
           ([1 / 2, 1 / 2], db', Inl (RuntimeError ''generator didn't stop after throw()''))
         else ([1 / 2, 1 / 2], db',
               Inl (HTTPException 503 ''Database connection failed after multiple retries'')))
      else if probe 2 = None then
        ([1 / 2, 1 / 2], db',
         Inl (HTTPException 503 ''Database connection failed after multiple retries''))
      else ([1 / 2, 1 / 2], db,
            Inl (HTTPException 503 ''Database connection failed after multiple retries'')))"
  using assms by (auto simp add: get_db_def get_db_loop.simps numeral_2_eq_2 split: option.split)


lemma get_db_raises_cases:
  assumes "body db = (db, Inl err)"
  shows "\<exists>slept.
           get_db probe body db =
             (slept, db, Inl (RuntimeError ''generator didn't stop after throw()'')) \<or>
           get_db probe body db =
             (slept, db,
              Inl (HTTPException 503 ''Database connection failed after multiple retries''))"
  unfolding get_db_raises [of body db db err probe, OF assms] by auto

lemma get_db_raises_reachable:
  assumes "body db = (db', Inl err)" and "probe 0 = None" and "probe 1 = None"
  shows "get_db probe body db =
           ([1 / 2], db', Inl (RuntimeError ''generator didn't stop after throw()''))"
  unfolding get_db_raises [of body db db' err probe, OF assms(1)] using assms(2,3) by simp

lemma get_db_success:
  assumes "get_db probe body db = (slept, db', Inr v)"
  shows "body db = (db', Inr v)"
proof (cases "body db")
  case (Pair s r)
  show ?thesis
  proof (cases r)
    case (Inl err)
    with Pair have "body db = (s, Inl err)" by simp
    from get_db_raises [of body db s err probe, OF this] assms show ?thesis
      by (simp split: if_splits)
  next
    case (Inr w)
    with Pair have "body db = (s, Inr w)" by simp
    from get_db_returns [of body db s w probe, OF this] assms Pair Inr show ?thesis
      by (simp split: if_splits)
  qed
qed

section \<open>Requests that the handler refuses\<close>

text \<open>
  C4. For a create whose text is empty or consists of whitespace only, the handler raises the
  \<open>HTTPException\<close> with status 400 before it calls the datastore, and no row is persisted.
  The request does not end with that exception: it is raised in \<open>get_db\<close> at the \<open>yield\<close>,
  caught there, and followed by a sleep of 0.5 and another probe. When the datastore is
  reachable the generator yields a second time and the request ends with \<open>RuntimeError\<close>.
  Whatever the probes do, the request fails with an error that is not the 400, and the datastore
  is left as it was.
\<close>

theorem request_create_todo_blank:
  assumes "text = [] \<or> (\<forall>c\<in>set text. isspace c)" and "probe 0 = None" and "probe 1 = None"
  shows "create_todo flt db text = (db, Inl (HTTPException 400 ''Todo text cannot be empty'')) \<and>
         request_create_todo probe flt db text =
           ([1 / 2], db, Inl (RuntimeError ''generator didn't stop after throw()'')) \<and>
         (\<exists>slept e. request_create_todo any_probe flt db text = (slept, db, Inl e) \<and>
            e \<noteq> HTTPException 400 ''Todo text cannot be empty'')"
proof -
  from assms(1) have h: "create_todo flt db text =
      (db, Inl (HTTPException 400 ''Todo text cannot be empty''))"
    by (rule create_todo_blank_raises)
  from get_db_raises_reachable [of "\<lambda>s. create_todo flt s text" db db _ probe, OF h assms(2,3)]
  have r: "request_create_todo probe flt db text =
           ([1 / 2], db, Inl (RuntimeError ''generator didn't stop after throw()''))"
    by (simp add: request_create_todo_def)
  from get_db_raises_cases [of "\<lambda>s. create_todo flt s text" db _ any_probe, OF h]
  have "\<exists>slept e. request_create_todo any_probe flt db text = (slept, db, Inl e) \<and>
            e \<noteq> HTTPException 400 ''Todo text cannot be empty''"
    unfolding request_create_todo_def by auto
  with h r show ?thesis by blast
qed

theorem request_create_todo_blank_witness:
  "reachable 0 = None \<and> reachable 1 = None \<and>
   create_todo available empty_database [] =
     (empty_database, Inl (HTTPException 400 ''Todo text cannot be empty'')) \<and>
   request_create_todo reachable available empty_database [] =
     ([1 / 2], empty_database, Inl (RuntimeError ''generator didn't stop after throw()''))"
  using request_create_todo_blank [of "[]" reachable available empty_database]
  by (simp add: reachable_def)

text \<open>
  C5, as the code has it. The length that \<open>create_todo\<close> compares with 500 is the length of
  the trimmed text. For a create whose text is longer than 500 characters after trimming (501
  in particular), the handler raises the \<open>HTTPException\<close> with status 400 before it calls
  the datastore; the request fails, whatever the probes do, and the datastore is left as it was.
\<close>

theorem request_create_todo_too_long:
  assumes "500 < length (strip text)"
  shows "create_todo flt db text =
           (db, Inl (HTTPException 400 ''Todo text cannot exceed 500 characters'')) \<and>
         (\<exists>slept e. request_create_todo probe flt db text = (slept, db, Inl e))"
proof -
  from assms have h: "create_todo flt db text =
      (db, Inl (HTTPException 400 ''Todo text cannot exceed 500 characters''))"
    by (rule create_todo_too_long_raises)
  from get_db_raises_cases [of "\<lambda>s. create_todo flt s text" db _ probe, OF h]
  have "\<exists>slept e. request_create_todo probe flt db text = (slept, db, Inl e)"
    unfolding request_create_todo_def by auto
  with h show ?thesis by blast
qed

theorem request_create_todo_too_long_witness:
  "500 < length (strip (replicate 501 97)) \<and>
   create_todo available empty_database (replicate 501 97) =
     (empty_database, Inl (HTTPException 400 ''Todo text cannot exceed 500 characters'')) \<and>
   (\<exists>slept e. request_create_todo reachable available empty_database (replicate 501 97) =
      (slept, empty_database, Inl e))"
  using request_create_todo_too_long [of "replicate 501 97" available empty_database reachable]
  by (simp add: strip_replicate_a)

text \<open>
  C5, as stated, fails: the text of 500 letters \<open>a\<close> followed by one space has length 501,
  and the create request succeeds, storing the 500 letters.
\<close>

theorem request_create_todo_501_counterexample:
  "length (replicate 500 97 @ [32 :: pychar]) = 501 \<and>
   request_create_todo reachable available empty_database (replicate 500 97 @ [32]) =
     ([],
      \<lparr>rows = [\<lparr>id_col = 1, text_col = replicate 500 97, completed_col = False\<rparr>], next_id = 2\<rparr>,
      Inr \<lparr>id_col = 1, text_col = replicate 500 97, completed_col = False\<rparr>)"
proof -
  have "isspace 32" by (simp add: isspace_def)
  then have "strip (replicate 500 97 @ [32]) = replicate 500 97"
    by (simp add: strip_trailing_space strip_replicate_a)
  then have "create_todo available empty_database (replicate 500 97 @ [32]) =
     (\<lparr>rows = [\<lparr>id_col = 1, text_col = replicate 500 97, completed_col = False\<rparr>], next_id = 2\<rparr>,
      Inr \<lparr>id_col = 1, text_col = replicate 500 97, completed_col = False\<rparr>)"
    by (simp add: create_todo_def commit_add_def refresh_def available_def empty_database_def)
  from get_db_returns [of "\<lambda>s. create_todo available s (replicate 500 97 @ [32])", OF this, of reachable]
  show ?thesis by (simp add: request_create_todo_def reachable_def)
qed

text \<open>
  C10. When the datastore answers the lookup and no stored row has the requested id,
  \<open>update_todo\<close> raises the \<open>HTTPException\<close> with status 404 for every request body: the
  lookup comes before the validation of the text. The request does not end with that exception:
  \<open>get_db\<close> catches it at the \<open>yield\<close>, sleeps 0.5 and probes again, and with a reachable
  datastore the request ends with \<open>RuntimeError\<close>. The datastore is left as it was.
\<close>

theorem request_update_todo_absent:
  assumes "flt Query 0 = None" and "todo_id \<notin> id_col ` set (rows db)"
    and "probe 0 = None" and "probe 1 = None"
  shows "update_todo flt db todo_id todo_update =
           (db, Inl (HTTPException 404 ''Todo not found'')) \<and>
         request_update_todo probe flt db todo_id todo_update =
           ([1 / 2], db, Inl (RuntimeError ''generator didn't stop after throw()''))"
proof -
  from assms(1,2) have h: "update_todo flt db todo_id todo_update =
      (db, Inl (HTTPException 404 ''Todo not found''))"
    by (rule update_todo_absent_raises)
  from get_db_raises_reachable
    [of "\<lambda>s. update_todo flt s todo_id todo_update" db db _ probe, OF h assms(3,4)] h
  show ?thesis by (simp add: request_update_todo_def)
qed

theorem request_update_todo_absent_witness:
  "available Query 0 = None \<and> 7 \<notin> id_col ` set (rows empty_database) \<and>
   reachable 0 = None \<and> reachable 1 = None \<and>
   update_todo available empty_database 7 \<lparr>text_opt = Some [], completed_opt = None\<rparr> =
     (empty_database, Inl (HTTPException 404 ''Todo not found'')) \<and>
   request_update_todo reachable available empty_database 7
     \<lparr>text_opt = Some [], completed_opt = None\<rparr> =
     ([1 / 2], empty_database, Inl (RuntimeError ''generator didn't stop after throw()''))"
  using request_update_todo_absent
    [of available 7 empty_database reachable "\<lparr>text_opt = Some [], completed_opt = None\<rparr>"]
  by (simp add: available_def empty_database_def reachable_def)

lemma delete_todo_then_raises:
  assumes "delete_todo flt db todo_id = (db', Inr m)"
    and "flt_get Query 0 = None" and "flt_del Query 0 = None"
  shows "get_todo flt_get db' todo_id = (db', Inl (HTTPException 404 ''Todo not found'')) \<and>
         delete_todo flt_del db' todo_id = (db', Inl (HTTPException 404 ''Todo not found''))"
proof -
  from delete_todo_success [OF assms(1)]
  have "rows db' = filter (\<lambda>r. id_col r \<noteq> todo_id) (rows db)" by simp
  then have "find (\<lambda>r. id_col r = todo_id) (rows db') = None"
    by (simp only: find_after_delete)
  with assms(2,3) show ?thesis
    by (simp add: get_todo_def delete_todo_def query_first_def)
qed

text \<open>
  C7. After a delete request that succeeded, and as long as the lookup itself does not raise,
  the handlers \<open>get_todo\<close> and \<open>delete_todo\<close> called with the same id raise the
  \<open>HTTPException\<close> with status 404 and leave the datastore as it was. The requests do not
  end with that exception: \<open>get_db\<close> catches it at the \<open>yield\<close>, sleeps 0.5 and probes
  again, and with a reachable datastore both requests end with \<open>RuntimeError\<close>.
\<close>

theorem request_get_todo_after_delete:
  assumes "request_delete_todo probe flt db todo_id = (slept, db', Inr m)"
    and "flt_get Query 0 = None" and "flt_del Query 0 = None"
    and "probe_next 0 = None" and "probe_next 1 = None"
  shows "get_todo flt_get db' todo_id = (db', Inl (HTTPException 404 ''Todo not found'')) \<and>
         delete_todo flt_del db' todo_id = (db', Inl (HTTPException 404 ''Todo not found'')) \<and>
         request_get_todo probe_next flt_get db' todo_id =
           ([1 / 2], db', Inl (RuntimeError ''generator didn't stop after throw()'')) \<and>
         request_delete_todo probe_next flt_del db' todo_id =
           ([1 / 2], db', Inl (RuntimeError ''generator didn't stop after throw()''))"
proof -
  from assms(1) have "delete_todo flt db todo_id = (db', Inr m)"
    unfolding request_delete_todo_def by (rule get_db_success)
  from delete_todo_then_raises [where flt_get = flt_get and flt_del = flt_del, OF this assms(2,3)]
  have g: "get_todo flt_get db' todo_id = (db', Inl (HTTPException 404 ''Todo not found''))"
    and d: "delete_todo flt_del db' todo_id = (db', Inl (HTTPException 404 ''Todo not found''))"
    by simp_all
  from get_db_raises_reachable [of "\<lambda>s. get_todo flt_get s todo_id" db' db' _ probe_next,
      OF g assms(4,5)]
  have rg: "request_get_todo probe_next flt_get db' todo_id =
           ([1 / 2], db', Inl (RuntimeError ''generator didn't stop after throw()''))"
    by (simp add: request_get_todo_def)
  from get_db_raises_reachable [of "\<lambda>s. delete_todo flt_del s todo_id" db' db' _ probe_next,
      OF d assms(4,5)]
  have rd: "request_delete_todo probe_next flt_del db' todo_id =
           ([1 / 2], db', Inl (RuntimeError ''generator didn't stop after throw()''))"
    by (simp add: request_delete_todo_def)
  from g d rg rd show ?thesis by simp
qed

theorem request_get_todo_after_delete_witness:
  "request_delete_todo reachable available
     \<lparr>rows = [\<lparr>id_col = 1, text_col = [97], completed_col = False\<rparr>], next_id = 2\<rparr> 1 =
     ([], \<lparr>rows = [], next_id = 2\<rparr>, Inr ''Todo deleted successfully'') \<and>
   available Query 0 = None \<and> reachable 0 = None \<and> reachable 1 = None \<and>
   get_todo available \<lparr>rows = [], next_id = 2\<rparr> 1 =
     (\<lparr>rows = [], next_id = 2\<rparr>, Inl (HTTPException 404 ''Todo not found'')) \<and>
   request_get_todo reachable available \<lparr>rows = [], next_id = 2\<rparr> 1 =
     ([1 / 2], \<lparr>rows = [], next_id = 2\<rparr>,
      Inl (RuntimeError ''generator didn't stop after throw()'')) \<and>
   request_delete_todo reachable available \<lparr>rows = [], next_id = 2\<rparr> 1 =
     ([1 / 2], \<lparr>rows = [], next_id = 2\<rparr>,
      Inl (RuntimeError ''generator didn't stop after throw()''))"
proof -
  have d: "delete_todo available
             \<lparr>rows = [\<lparr>id_col = 1, text_col = [97], completed_col = False\<rparr>], next_id = 2\<rparr> 1 =
           (\<lparr>rows = [], next_id = 2\<rparr>, Inr ''Todo deleted successfully'')"
    by (simp add: delete_todo_def query_first_def commit_delete_def available_def)
  from get_db_returns [of "\<lambda>s. delete_todo available s 1", OF d, of reachable]
  have r: "request_delete_todo reachable available
     \<lparr>rows = [\<lparr>id_col = 1, text_col = [97], completed_col = False\<rparr>], next_id = 2\<rparr> 1 =
     ([], \<lparr>rows = [], next_id = 2\<rparr>, Inr ''Todo deleted successfully'')"
    by (simp add: request_delete_todo_def reachable_def)
  have q: "available Query 0 = None" by (simp add: available_def)
  have p: "reachable 0 = None" "reachable 1 = None" by (simp_all add: reachable_def)
  from request_get_todo_after_delete
    [where flt_get = available and flt_del = available and probe_next = reachable, OF r q q p]
    r q p
  show ?thesis by simp
qed

section \<open>Create and read back\<close>

lemma find_member:
  "distinct (map id_col rs) \<Longrightarrow> r \<in> set rs \<Longrightarrow> find (\<lambda>x. id_col x = id_col r) rs = Some r"
  by (induction rs) force+

lemma get_todo_stored:
  assumes "storage_invariant db" and "r \<in> set (rows db)" and "flt Query 0 = None"
  shows "get_todo flt db (id_col r) = (db, Inr r)"
proof -
  from assms(1) have "distinct (map id_col (rows db))" by (simp add: storage_invariant_def)
  from find_member [OF this assms(2)] assms(3) show ?thesis
    by (simp add: get_todo_def query_first_def)
qed

lemma handle_keeps:
  assumes "r \<in> set (rows db)" and "target q \<noteq> Some (id_col r)"
  shows "r \<in> set (rows (fst (handle flt db q)))"
proof (cases q)
  case (Create t)
  with create_todo_state [of flt db t] assms(1) show ?thesis
    by (auto simp: case_prod_beta)
next
  case (Update i u)
  with assms(2) have "id_col r \<noteq> i" by auto
  with update_todo_state [of flt db i u] assms(1) Update show ?thesis
    by (auto simp: case_prod_beta)
next
  case (Delete i)
  with assms(2) have "id_col r \<noteq> i" by auto
  with delete_todo_state [of flt db i] assms(1) Delete show ?thesis
    by (auto simp: case_prod_beta)
qed

lemma run_keeps:
  "r \<in> set (rows db) \<Longrightarrow> \<forall>x\<in>set reqs. target (snd x) \<noteq> Some (id_col r) \<Longrightarrow>
   r \<in> set (rows (fst (run db reqs)))"
proof (induction reqs arbitrary: db)
  case Nil
  then show ?case by simp
next
  case (Cons x reqs)
  obtain flt q where x: "x = (flt, q)" by (cases x)
  from Cons.prems(2) x have t: "target q \<noteq> Some (id_col r)"
    and rest: "\<forall>x\<in>set reqs. target (snd x) \<noteq> Some (id_col r)" by simp_all
  from Cons.prems(1) t have "r \<in> set (rows (fst (handle flt db q)))" by (rule handle_keeps)
  from Cons.IH [OF this rest] show ?case by (simp only: x run_Cons fst_conv)
qed

text \<open>
  C1. On a reachable and available datastore in a state that satisfies the storage invariant,
  a create request whose trimmed text is non-empty and at most 500 characters long succeeds: it
  returns the item made of the next id of the sequence, the trimmed text and
  \<open>completed = False\<close>, and appends that item to the table. The id is positive and is the
  id of no row stored before. After any further requests that neither update nor delete that
  id, a get request with the id returns the same item.
\<close>

theorem create_todo_then_get_todo:
  assumes "storage_invariant db" and "strip text \<noteq> []" and "length (strip text) \<le> 500"
    and "item = \<lparr>id_col = next_id db, text_col = strip text, completed_col = False\<rparr>"
    and "db' = \<lparr>rows = rows db @ [item], next_id = next_id db + 1\<rparr>"
    and "probe 0 = None" and "probe_get 0 = None"
    and "\<forall>x\<in>set reqs. target (snd x) \<noteq> Some (id_col item)"
  shows "request_create_todo probe available db text = ([], db', Inr item) \<and>
         completed_col item = False \<and> 0 < id_col item \<and> id_col item \<notin> id_col ` set (rows db) \<and>
         request_get_todo probe_get available (fst (run db' reqs)) (id_col item) =
           ([], fst (run db' reqs), Inr item)"
proof -
  from assms(2) have t: "text \<noteq> []" by (auto simp: strip_Nil)
  from assms(1) have fresh: "\<forall>r\<in>set (rows db). id_col r \<noteq> id_col item"
    using assms(4) by (auto simp: storage_invariant_def)
  from find_after_add [OF fresh]
  have f: "find (\<lambda>r. id_col r = next_id db) (rows db @ [item]) = Some item"
    using assms(4) by simp
  have c: "create_todo available db text = (db', Inr item)"
    using t assms(2,3,4,5) f
    by (simp add: create_todo_def commit_add_def refresh_def available_def)
  from get_db_returns [of "\<lambda>s. create_todo available s text", OF c, of probe] assms(6)
  have rc: "request_create_todo probe available db text = ([], db', Inr item)"
    by (simp add: request_create_todo_def)
  from assms(1,2,3) have "storage_invariant db'"
    unfolding assms(4,5) by (rule invariant_add)
  then have inv: "storage_invariant (fst (run db' reqs))" by (rule run_invariant)
  have "item \<in> set (rows db')" by (simp add: assms(5))
  from run_keeps [OF this assms(8)] have m: "item \<in> set (rows (fst (run db' reqs)))" .
  have q: "available Query 0 = None" by (simp add: available_def)
  from get_todo_stored [where flt = available, OF inv m q]
  have g: "get_todo available (fst (run db' reqs)) (id_col item) = (fst (run db' reqs), Inr item)" .
  from get_db_returns [of "\<lambda>s. get_todo available s (id_col item)", OF g, of probe_get] assms(7)
  have rg: "request_get_todo probe_get available (fst (run db' reqs)) (id_col item) =
           ([], fst (run db' reqs), Inr item)"
    by (simp add: request_get_todo_def)
  from assms(1) have p: "0 < id_col item" using assms(4) by (simp add: storage_invariant_def)
  from rc rg p fresh assms(4) show ?thesis by auto
qed

theorem create_todo_then_get_todo_witness:
  "storage_invariant empty_database \<and> strip (of_ascii ''Buy milk'') \<noteq> [] \<and>
   length (strip (of_ascii ''Buy milk'')) \<le> 500 \<and> reachable 0 = None \<and>
   target (Create (of_ascii ''Walk dog'')) \<noteq> Some 1 \<and>
   request_create_todo reachable available empty_database (of_ascii ''Buy milk'') =
     ([],
      \<lparr>rows = [\<lparr>id_col = 1, text_col = of_ascii ''Buy milk'', completed_col = False\<rparr>], next_id = 2\<rparr>,
      Inr \<lparr>id_col = 1, text_col = of_ascii ''Buy milk'', completed_col = False\<rparr>) \<and>
   fst (run \<lparr>rows = [\<lparr>id_col = 1, text_col = of_ascii ''Buy milk'', completed_col = False\<rparr>],
             next_id = 2\<rparr>
          [(available, Create (of_ascii ''Walk dog''))]) =
     \<lparr>rows = [\<lparr>id_col = 1, text_col = of_ascii ''Buy milk'', completed_col = False\<rparr>,
              \<lparr>id_col = 2, text_col = of_ascii ''Walk dog'', completed_col = False\<rparr>],
      next_id = 3\<rparr> \<and>
   request_get_todo reachable available
     \<lparr>rows = [\<lparr>id_col = 1, text_col = of_ascii ''Buy milk'', completed_col = False\<rparr>,
              \<lparr>id_col = 2, text_col = of_ascii ''Walk dog'', completed_col = False\<rparr>],
      next_id = 3\<rparr> 1 =
     ([],
      \<lparr>rows = [\<lparr>id_col = 1, text_col = of_ascii ''Buy milk'', completed_col = False\<rparr>,
               \<lparr>id_col = 2, text_col = of_ascii ''Walk dog'', completed_col = False\<rparr>],
       next_id = 3\<rparr>,
      Inr \<lparr>id_col = 1, text_col = of_ascii ''Buy milk'', completed_col = False\<rparr>)"
proof -
  let ?item = "\<lparr>id_col = 1, text_col = of_ascii ''Buy milk'', completed_col = False\<rparr>"
  let ?db1 = "\<lparr>rows = [?item], next_id = 2\<rparr>"
  have s: "strip (of_ascii ''Buy milk'') = of_ascii ''Buy milk''"
    "strip (of_ascii ''Walk dog'') = of_ascii ''Walk dog''"
    by (simp_all add: strip_def of_ascii_def isspace_def)
  have i: "storage_invariant empty_database"
    by (simp add: storage_invariant_def empty_database_def)
  have p: "reachable 0 = None" by (simp add: reachable_def)
  have n: "of_ascii ''Walk dog'' \<noteq> []" "length (of_ascii ''Walk dog'') \<le> 500"
    by (simp_all add: of_ascii_def)
  have r: "fst (run ?db1 [(available, Create (of_ascii ''Walk dog''))]) =
     \<lparr>rows = [?item, \<lparr>id_col = 2, text_col = of_ascii ''Walk dog'', completed_col = False\<rparr>],
      next_id = 3\<rparr>"
    using n by (simp add: create_todo_def commit_add_def refresh_def available_def s)
  have t: "\<forall>x\<in>set [(available, Create (of_ascii ''Walk dog''))]. target (snd x) \<noteq> Some (id_col ?item)"
    by simp
  have h2: "strip (of_ascii ''Buy milk'') \<noteq> []" and h3: "length (strip (of_ascii ''Buy milk'')) \<le> 500"
    by (simp_all add: s) (simp_all add: of_ascii_def)
  have h4: "?item = \<lparr>id_col = next_id empty_database, text_col = strip (of_ascii ''Buy milk''),
                      completed_col = False\<rparr>"
    by (simp add: s empty_database_def)
  have h5: "?db1 = \<lparr>rows = rows empty_database @ [?item], next_id = next_id empty_database + 1\<rparr>"
    by (simp add: empty_database_def)
  note th = create_todo_then_get_todo
    [where probe = reachable and probe_get = reachable, OF i h2 h3 h4 h5 p p t]
  have c: "request_create_todo reachable available empty_database (of_ascii ''Buy milk'') =
             ([], ?db1, Inr ?item)"
    using th by (rule conjunct1)
  have g: "request_get_todo reachable available
             (fst (run ?db1 [(available, Create (of_ascii ''Walk dog''))])) (id_col ?item) =
           ([], fst (run ?db1 [(available, Create (of_ascii ''Walk dog''))]), Inr ?item)"
    using th by (rule conjunct2 [THEN conjunct2, THEN conjunct2, THEN conjunct2])
  have g': "request_get_todo reachable available
     \<lparr>rows = [?item, \<lparr>id_col = 2, text_col = of_ascii ''Walk dog'', completed_col = False\<rparr>],
      next_id = 3\<rparr> 1 =
     ([], \<lparr>rows = [?item, \<lparr>id_col = 2, text_col = of_ascii ''Walk dog'', completed_col = False\<rparr>],
           next_id = 3\<rparr>,
      Inr ?item)"
    using g unfolding r by simp
  have tg: "target (Create (of_ascii ''Walk dog'')) \<noteq> Some 1" by simp
  from i h2 h3 p tg c r g' show ?thesis by (intro conjI)
qed

section \<open>Listing\<close>










section \<open>Retries at request time\<close>








end
